theory Spec2Isabelle
  imports Complex_Main
begin

section \<open>Data model of \<open>src/gesture.py\<close>\<close>

text \<open>
  The five keys of \<open>gesture_buffer\<close> and of the dictionary that
  \<open>detect_finger_states\<close> returns. The source names them by the strings
  \<open>"thumb"\<close>, \<open>"index"\<close>, \<open>"middle"\<close>, \<open>"ring"\<close>, \<open>"pinky"\<close>; no other key is ever
  used, so a finger is a value of an enumeration and a dictionary over the five keys
  is a total function on it.
\<close>

datatype finger = Thumb | Index | Middle | Ring | Pinky

fun finger_name :: "finger \<Rightarrow> string" where
  "finger_name Thumb = ''thumb''"
| "finger_name Index = ''index''"
| "finger_name Middle = ''middle''"
| "finger_name Ring = ''ring''"
| "finger_name Pinky = ''pinky''"

text \<open>
  The members of \<open>mp_hands.HandLandmark\<close> (the 21 landmarks of the pose estimator, in
  its order), and a landmark with its normalized coordinates. Coordinates are Python
  floats; they are modelled as real numbers, compared and subtracted as the source
  compares and subtracts them.
\<close>

datatype HandLandmark =
    WRIST
  | THUMB_CMC | THUMB_MCP | THUMB_IP | THUMB_TIP
  | INDEX_FINGER_MCP | INDEX_FINGER_PIP | INDEX_FINGER_DIP | INDEX_FINGER_TIP
  | MIDDLE_FINGER_MCP | MIDDLE_FINGER_PIP | MIDDLE_FINGER_DIP | MIDDLE_FINGER_TIP
  | RING_FINGER_MCP | RING_FINGER_PIP | RING_FINGER_DIP | RING_FINGER_TIP
  | PINKY_MCP | PINKY_PIP | PINKY_DIP | PINKY_TIP

record landmark =
  lm_x :: real
  lm_y :: real

type_synonym hand_landmarks = "HandLandmark \<Rightarrow> landmark"

text \<open>
  What the program does to the outside world, in the order it does it: an HTTP GET
  (\<open>requests.get(url, timeout=...)\<close>), a call of the logger, a pause
  (\<open>time.sleep\<close>), and a call of \<open>send_command(endpoint)\<close>, which starts the
  daemon thread that runs the delivery routine \<open>send\<close>.
\<close>

datatype level = DEBUG | INFO | WARNING | ERROR

datatype event =
    Http_get string real
  | Log level string
  | Sleep real
  | Send_command string

text \<open>
  The outcome of one \<open>requests.get\<close>: a response with its status code and text, or
  one of the exceptions the source distinguishes. \<open>Raises_Other\<close> carries the
  text of the exception.
\<close>

datatype http_outcome =
    Response int string
  | Raises_Timeout
  | Raises_ConnectionError
  | Raises_Other string

text \<open>
  The module's global variables. \<open>prev_states\<close> is a dictionary with the six keys
  \<open>"thumb"\<close>, ..., \<open>"pinky"\<close> and \<open>"all_down"\<close>, each holding \<open>None\<close>, \<open>True\<close> or
  \<open>False\<close>; every assignment to it (lines 30-37 and 189-190) builds all six keys, so
  it is modelled as a function on the fingers together with the entry of
  \<open>"all_down"\<close>. A \<open>deque(maxlen=3)\<close> is the list of its entries, oldest first.
\<close>

record state =
  prev_states :: "finger \<Rightarrow> bool option"
  prev_all_down :: "bool option"
  gesture_buffer :: "finger \<Rightarrow> bool list"
  esp32_connected :: bool
  last_connection_check :: real

definition ESP32_IP :: string where
  "ESP32_IP = ''192.168.4.1''"

definition BASE_URL :: string where
  "BASE_URL = ''http://'' @ ESP32_IP"

definition REQUEST_TIMEOUT :: real where
  "REQUEST_TIMEOUT = 1.0"

definition MAX_RETRIES :: int where
  "MAX_RETRIES = 2"

definition CONNECTION_CHECK_INTERVAL :: real where
  "CONNECTION_CHECK_INTERVAL = 5.0"

definition maxlen :: nat where
  "maxlen = 3"

definition initial_state :: state where
  "initial_state =
     \<lparr> prev_states = (\<lambda>_. None),
       prev_all_down = None,
       gesture_buffer = (\<lambda>_. []),
       esp32_connected = False,
       last_connection_check = 0 \<rparr>"

text \<open>Python's truth value of \<open>None\<close>, \<open>True\<close> and \<open>False\<close>.\<close>

fun truthy :: "bool option \<Rightarrow> bool" where
  "truthy None = False"
| "truthy (Some b) = b"

section \<open>The stability filter\<close>

text \<open>
  \<open>deque.append\<close> on a deque with a maximum length: a full deque drops its oldest
  entry.
\<close>

definition deque_append :: "nat \<Rightarrow> 'a list \<Rightarrow> 'a \<Rightarrow> 'a list" where
  "deque_append n d v = (if length d < n then d @ [v] else tl d @ [v])"

text \<open>
  \<open>get_stable_gesture(finger, current_state)\<close>, lines 96-103: the returned value and
  the state with the finger's buffer updated.
\<close>

definition get_stable_gesture :: "finger \<Rightarrow> bool \<Rightarrow> state \<Rightarrow> bool option \<times> state" where
  "get_stable_gesture finger current_state st =
     (let buf = deque_append maxlen (gesture_buffer st finger) current_state;
          st' = st\<lparr>gesture_buffer := (gesture_buffer st)(finger := buf)\<rparr>
      in if length buf = maxlen \<and> (list_all id buf \<or> \<not> list_ex id buf)
         then (Some (last buf), st')
         else (prev_states st finger, st'))"

section \<open>The classifier\<close>

definition margin :: real where
  "margin = 0.02"

definition hand_is_right :: "hand_landmarks \<Rightarrow> bool" where
  "hand_is_right hl = (lm_x (hl THUMB_TIP) < lm_x (hl THUMB_MCP))"

definition thumb_up :: "hand_landmarks \<Rightarrow> bool" where
  "thumb_up hl =
     (if hand_is_right hl then lm_x (hl THUMB_TIP) < lm_x (hl THUMB_IP)
      else lm_x (hl THUMB_TIP) > lm_x (hl THUMB_IP))"

text \<open>\<open>detect_finger_states(hand_landmarks)\<close>, lines 105-148.\<close>

fun detect_finger_states :: "hand_landmarks \<Rightarrow> finger \<Rightarrow> bool" where
  "detect_finger_states hl Thumb = thumb_up hl"
| "detect_finger_states hl Index =
     (lm_y (hl INDEX_FINGER_TIP) < lm_y (hl INDEX_FINGER_PIP) - margin)"
| "detect_finger_states hl Middle =
     (lm_y (hl MIDDLE_FINGER_TIP) < lm_y (hl MIDDLE_FINGER_PIP) - margin)"
| "detect_finger_states hl Ring =
     (lm_y (hl RING_FINGER_TIP) < lm_y (hl RING_FINGER_PIP) - margin)"
| "detect_finger_states hl Pinky =
     (lm_y (hl PINKY_TIP) < lm_y (hl PINKY_PIP) - margin)"

section \<open>The orchestrator\<close>

text \<open>
  The loop of lines 161-163 over the five fingers: each call of
  \<open>get_stable_gesture\<close> runs on the state the previous one left.
\<close>

fun stabilize :: "finger list \<Rightarrow> (finger \<Rightarrow> bool) \<Rightarrow> (finger \<Rightarrow> bool option) \<Rightarrow> state
    \<Rightarrow> (finger \<Rightarrow> bool option) \<times> state" where
  "stabilize [] current_states stable_states st = (stable_states, st)"
| "stabilize (finger # rest) current_states stable_states st =
     (case get_stable_gesture finger (current_states finger) st of
        (v, st') \<Rightarrow> stabilize rest current_states (stable_states(finger := v)) st')"

text \<open>One of the five conditional dispatches of lines 169-182.\<close>

definition finger_command :: "finger \<Rightarrow> bool option \<Rightarrow> bool option \<Rightarrow> event list" where
  "finger_command finger new old =
     (if new \<noteq> old \<and> new \<noteq> None
      then [Send_command (finger_name finger @ (if truthy new then ''/on'' else ''/off''))]
      else [])"

text \<open>
  \<open>process_gestures(hand_landmarks)\<close>, lines 150-192: the returned value (\<open>None\<close>
  when the function returns at line 155), the new state, and the events of the call.
\<close>

definition process_gestures ::
    "hand_landmarks \<Rightarrow> state \<Rightarrow> (finger \<Rightarrow> bool option) option \<times> state \<times> event list" where
  "process_gestures hl st =
     (if \<not> esp32_connected st then (None, st, [])
      else
        case stabilize [Thumb, Index, Middle, Ring, Pinky] (detect_finger_states hl) (\<lambda>_. None) st of
          (stable_states, st1) \<Rightarrow>
            let all_down = (\<not> list_ex truthy (map stable_states [Thumb, Index, Middle, Ring, Pinky]));
                evs = finger_command Thumb (stable_states Thumb) (prev_states st Thumb)
                    @ finger_command Index (stable_states Index) (prev_states st Index)
                    @ finger_command Middle (stable_states Middle) (prev_states st Middle)
                    @ finger_command Ring (stable_states Ring) (prev_states st Ring)
                    @ finger_command Pinky (stable_states Pinky) (prev_states st Pinky)
                    @ (if all_down \<and> \<not> truthy (prev_all_down st)
                       then [Send_command ''all/off'', Log INFO ''All fingers down - all LEDs OFF'']
                       else [])
            in (Some stable_states,
                st1\<lparr>prev_states := stable_states, prev_all_down := Some all_down\<rparr>,
                evs))"

section \<open>The connection health monitor\<close>

text \<open>
  \<open>check_esp32_connection()\<close>, lines 53-72. The value of \<open>time.time()\<close> and the
  outcome of the request to the status endpoint are inputs of the model; the outcome is
  looked at only when the request is made. The bare \<open>except:\<close> catches every
  exception.
\<close>

definition check_esp32_connection ::
    "real \<Rightarrow> (string \<Rightarrow> http_outcome) \<Rightarrow> state \<Rightarrow> bool \<times> state \<times> event list" where
  "check_esp32_connection current_time transport st =
     (if current_time - last_connection_check st < CONNECTION_CHECK_INTERVAL
      then (esp32_connected st, st, [])
      else
        let st1 = st\<lparr>last_connection_check := current_time\<rparr>;
            url = BASE_URL @ ''/status''
        in case transport url of
             Response status_code text \<Rightarrow>
               let st2 = st1\<lparr>esp32_connected := (status_code = 200)\<rparr>
               in (esp32_connected st2, st2,
                   Http_get url 1.0 #
                   (if esp32_connected st2 then [Log INFO ''ESP32 connection established'']
                    else []))
           | _ \<Rightarrow>
               (False, st1\<lparr>esp32_connected := False\<rparr>,
                Http_get url 1.0 #
                (if esp32_connected st1 then [Log WARNING ''ESP32 connection lost'']
                 else [])))"

section \<open>The command dispatcher\<close>

text \<open>Python's \<open>str\<close> of an integer, for the log messages.\<close>

definition digit_char :: "nat \<Rightarrow> char" where
  "digit_char d = ''0123456789'' ! d"

function str_nat :: "nat \<Rightarrow> string" where
  "str_nat n = (if n < 10 then [digit_char n] else str_nat (n div 10) @ [digit_char (n mod 10)])"
  by pat_completeness auto
termination
  by (relation "measure (\<lambda>n. n)") auto

definition str_int :: "int \<Rightarrow> string" where
  "str_int i = (if i < 0 then CHR ''-'' # str_nat (nat (- i)) else str_nat (nat i))"

text \<open>
  The loop of the delivery routine \<open>send\<close>, lines 77-92, from the given attempt on.
  The transport gives the outcome of the request of each attempt.
\<close>

function send_loop :: "string \<Rightarrow> int \<Rightarrow> (string \<Rightarrow> int \<Rightarrow> http_outcome) \<Rightarrow> int \<Rightarrow> event list" where
  "send_loop endpoint retries transport attempt =
     (if attempt < retries then
        let url = BASE_URL @ ''/led/'' @ endpoint
        in Http_get url REQUEST_TIMEOUT #
           (case transport url attempt of
              Response status_code text \<Rightarrow>
                if status_code = 200
                then [Log DEBUG (''Command sent: '' @ endpoint @ '' - '' @ text)]
                else Sleep 0.1 # send_loop endpoint retries transport (attempt + 1)
            | Raises_Timeout \<Rightarrow>
                Log WARNING (''Timeout sending '' @ endpoint @ '' (attempt ''
                             @ str_int (attempt + 1) @ ''/'' @ str_int retries @ '')'')
                # Sleep 0.1 # send_loop endpoint retries transport (attempt + 1)
            | Raises_ConnectionError \<Rightarrow>
                [Log ERROR (''Connection error for '' @ endpoint)]
            | Raises_Other e \<Rightarrow>
                [Log ERROR (''Error sending '' @ endpoint @ '': '' @ e)])
      else [])"
  by pat_completeness auto
termination
  by (relation "measure (\<lambda>(endpoint, retries, transport, attempt). nat (retries - attempt))") auto

text \<open>The body \<open>send\<close> of the thread that \<open>send_command(endpoint, retries)\<close> starts.\<close>

definition send :: "string \<Rightarrow> int \<Rightarrow> (string \<Rightarrow> int \<Rightarrow> http_outcome) \<Rightarrow> event list" where
  "send endpoint retries transport = send_loop endpoint retries transport 0"

text \<open>The requests made in a run, and the messages logged at error level.\<close>

fun is_request :: "event \<Rightarrow> bool" where
  "is_request (Http_get url t) = True"
| "is_request e = False"

fun is_error_log :: "event \<Rightarrow> bool" where
  "is_error_log (Log ERROR m) = True"
| "is_error_log e = False"

definition attempts :: "event list \<Rightarrow> nat" where
  "attempts evs = length (filter is_request evs)"

section \<open>The control loop as a run\<close>

text \<open>
  The main loop calls \<open>process_gestures\<close> for each hand it sees and
  \<open>check_esp32_connection\<close> from time to time. A run is the list of these calls with
  their inputs; it gives the final state and, for each call, its events.
\<close>

datatype call =
    Process hand_landmarks
  | Check real "string \<Rightarrow> http_outcome"

fun step :: "call \<Rightarrow> state \<Rightarrow> state \<times> event list" where
  "step (Process hl) st = (case process_gestures hl st of (r, st', evs) \<Rightarrow> (st', evs))"
| "step (Check t transport) st =
     (case check_esp32_connection t transport st of (r, st', evs) \<Rightarrow> (st', evs))"

fun run :: "call list \<Rightarrow> state \<Rightarrow> state \<times> event list list" where
  "run [] st = (st, [])"
| "run (c # cs) st =
     (case step c st of (st1, evs) \<Rightarrow>
        (case run cs st1 of (st2, evss) \<Rightarrow> (st2, evs # evss)))"

text \<open>
  Landmark sets for the examples: every landmark at the centre of the image, and the
  same hand with the tip of the index finger raised.
\<close>

definition closed_hand :: hand_landmarks where
  "closed_hand = (\<lambda>_. \<lparr>lm_x = 0.5, lm_y = 0.5\<rparr>)"

definition index_hand :: hand_landmarks where
  "index_hand = closed_hand(INDEX_FINGER_TIP := \<lparr>lm_x = 0.5, lm_y = 0.1\<rparr>)"

text \<open>The initial state with the connection flag set.\<close>

definition connected_state :: state where
  "connected_state = initial_state\<lparr>esp32_connected := True\<rparr>"

text \<open>The same hand with the thumb stretched out to the side as well.\<close>

definition thumb_index_hand :: hand_landmarks where
  "thumb_index_hand = index_hand(THUMB_TIP := \<lparr>lm_x = 0.9, lm_y = 0.5\<rparr>)"

text \<open>The state after two cycles that saw \<open>index_hand\<close>.\<close>

definition two_index_state :: state where
  "two_index_state = fst (run [Process index_hand, Process index_hand] connected_state)"

text \<open>
  The commands of a cycle that are addressed to one finger: its \<open>on\<close> and its
  \<open>off\<close> command.
\<close>

definition finger_sends :: "finger \<Rightarrow> event list \<Rightarrow> event list" where
  "finger_sends f evs =
     filter (\<lambda>e. e = Send_command (finger_name f @ ''/on'')
               \<or> e = Send_command (finger_name f @ ''/off'')) evs"

text \<open>Transports for the examples: one that answers every request with status 200.\<close>

definition ok_transport :: "string \<Rightarrow> http_outcome" where
  "ok_transport url = Response 200 ''OK''"

text \<open>
  Transports for the examples of the dispatcher: every attempt times out; every attempt
  is answered with status 500; the first attempt times out and the later ones raise
  some other exception. \<open>retried\<close> holds of the outcomes after which the loop goes on
  to its pause (line 92) rather than returning or breaking.
\<close>

definition always_timeout :: "string \<Rightarrow> int \<Rightarrow> http_outcome" where
  "always_timeout url attempt = Raises_Timeout"

definition always_500 :: "string \<Rightarrow> int \<Rightarrow> http_outcome" where
  "always_500 url attempt = Response 500 ''Internal Server Error''"

definition timeout_then_error :: "string \<Rightarrow> int \<Rightarrow> http_outcome" where
  "timeout_then_error url attempt =
     (if attempt = 0 then Raises_Timeout else Raises_Other ''boom'')"

fun retried :: "http_outcome \<Rightarrow> bool" where
  "retried (Response status_code text) = (status_code \<noteq> 200)"
| "retried Raises_Timeout = True"
| "retried Raises_ConnectionError = False"
| "retried (Raises_Other e) = False"

text \<open>
  A transport that refuses the connection, and a hand whose thumb tip lies left of the
  thumb's other joints.
\<close>

definition refused_transport :: "string \<Rightarrow> http_outcome" where
  "refused_transport url = Raises_ConnectionError"

definition right_hand :: hand_landmarks where
  "right_hand = closed_hand(THUMB_TIP := \<lparr>lm_x = 0.1, lm_y = 0.5\<rparr>)"

text \<open>
  Histories of readings. \<open>most_recent n xs\<close> is the list of the last \<open>n\<close> entries of
  \<open>xs\<close> (all of \<open>xs\<close> when it is shorter). \<open>feed\<close> is a sequence of calls of
  \<open>get_stable_gesture\<close> for one finger, one per reading. \<open>readings_fed\<close> lists the
  raw readings that a run passes to \<open>get_stable_gesture\<close> for a finger: one for each
  call of \<open>process_gestures\<close> made while the connection flag is set.
\<close>

definition most_recent :: "nat \<Rightarrow> 'a list \<Rightarrow> 'a list" where
  "most_recent n xs = drop (length xs - n) xs"

fun feed :: "finger \<Rightarrow> bool list \<Rightarrow> state \<Rightarrow> state" where
  "feed finger [] st = st"
| "feed finger (v # vs) st = feed finger vs (snd (get_stable_gesture finger v st))"

fun readings_fed :: "finger \<Rightarrow> call list \<Rightarrow> state \<Rightarrow> bool list" where
  "readings_fed finger [] st = []"
| "readings_fed finger (Process hl # cs) st =
     (if esp32_connected st then [detect_finger_states hl finger] else [])
     @ readings_fed finger cs (fst (step (Process hl) st))"
| "readings_fed finger (Check t transport # cs) st =
     readings_fed finger cs (fst (step (Check t transport) st))"

text \<open>A transport that answers every request with status 500.\<close>

definition bad_status_transport :: "string \<Rightarrow> http_outcome" where
  "bad_status_transport url = Response 500 ''Internal Server Error''"

section \<open>Properties\<close>

subsection \<open>The stability filter\<close>

lemma get_stable_gesture_snd:
  "snd (get_stable_gesture f v st) =
     st\<lparr>gesture_buffer := (gesture_buffer st)(f := deque_append maxlen (gesture_buffer st f) v)\<rparr>"
  by (simp add: get_stable_gesture_def Let_def)

lemma get_stable_gesture_fst:
  "fst (get_stable_gesture f v st) =
     (let buf = deque_append maxlen (gesture_buffer st f) v
      in if length buf = maxlen \<and> (list_all id buf \<or> \<not> list_ex id buf)
         then Some (last buf) else prev_states st f)"
  by (auto simp: get_stable_gesture_def Let_def)

lemma get_stable_gesture_other:
  "g \<noteq> f \<Longrightarrow>
   fst (get_stable_gesture f v (st\<lparr>gesture_buffer := (gesture_buffer st)(g := b)\<rparr>)) =
   fst (get_stable_gesture f v st)"
  by (simp add: get_stable_gesture_fst Let_def cong: if_cong)

lemma deque_append_last: "last (deque_append n d v) = v"
  by (simp add: deque_append_def)

lemma deque_append_mem: "v \<in> set (deque_append n d v)"
  by (simp add: deque_append_def)

lemma get_stable_gesture_value:
  assumes "get_stable_gesture finger current_state st = (r, st')"
  shows "gesture_buffer st' finger = deque_append maxlen (gesture_buffer st finger) current_state"
    and "r = (if length (gesture_buffer st' finger) = 3 \<and>
                 (\<forall>v \<in> set (gesture_buffer st' finger). v = current_state)
              then Some current_state else prev_states st finger)"
    and "((\<forall>v \<in> set (gesture_buffer st' finger). v) \<or>
          (\<forall>v \<in> set (gesture_buffer st' finger). \<not> v)) =
         (\<forall>v \<in> set (gesture_buffer st' finger). v = current_state)"
    and "last (gesture_buffer st' finger) = current_state"
proof -
  define buf where "buf = deque_append maxlen (gesture_buffer st finger) current_state"
  show w: "gesture_buffer st' finger = deque_append maxlen (gesture_buffer st finger) current_state"
    using assms get_stable_gesture_snd [of finger current_state st] by simp
  have l: "last buf = current_state" and m: "current_state \<in> set buf"
    by (simp_all add: buf_def deque_append_last deque_append_mem)
  have u: "((\<forall>v \<in> set buf. v) \<or> (\<forall>v \<in> set buf. \<not> v)) = (\<forall>v \<in> set buf. v = current_state)"
    using m by blast
  have "r = fst (get_stable_gesture finger current_state st)"
    using assms by simp
  then have "r = (if length buf = 3 \<and> ((\<forall>v \<in> set buf. v) \<or> (\<forall>v \<in> set buf. \<not> v))
                then Some (last buf) else prev_states st finger)"
    unfolding get_stable_gesture_fst buf_def [symmetric]
    by (simp add: Let_def maxlen_def list_all_iff list_ex_iff)
  then show "r = (if length (gesture_buffer st' finger) = 3 \<and>
                 (\<forall>v \<in> set (gesture_buffer st' finger). v = current_state)
              then Some current_state else prev_states st finger)"
    unfolding w buf_def [symmetric] l u .
  show "((\<forall>v \<in> set (gesture_buffer st' finger). v) \<or>
          (\<forall>v \<in> set (gesture_buffer st' finger). \<not> v)) =
         (\<forall>v \<in> set (gesture_buffer st' finger). v = current_state)"
    unfolding w buf_def [symmetric] by (rule u)
  show "last (gesture_buffer st' finger) = current_state"
    unfolding w buf_def [symmetric] by (rule l)
qed

lemma stabilize_distinct:
  "distinct fs \<Longrightarrow>
   stabilize fs cur s0 st =
     ((\<lambda>f. if f \<in> set fs then fst (get_stable_gesture f (cur f) st) else s0 f),
      st\<lparr>gesture_buffer :=
           (\<lambda>f. if f \<in> set fs then deque_append maxlen (gesture_buffer st f) (cur f)
                else gesture_buffer st f)\<rparr>)"
proof (induction fs arbitrary: s0 st)
  case Nil
  show ?case by simp
next
  case (Cons g fs)
  define v where "v = fst (get_stable_gesture g (cur g) st)"
  define st1 where "st1 = st\<lparr>gesture_buffer := (gesture_buffer st)(g := deque_append maxlen (gesture_buffer st g) (cur g))\<rparr>"
  have g: "get_stable_gesture g (cur g) st = (v, st1)"
    unfolding v_def st1_def get_stable_gesture_snd [symmetric] by simp
  have d: "distinct fs" and ng: "g \<notin> set fs" using Cons.prems by simp_all
  have other: "fst (get_stable_gesture f (cur f) st1) = fst (get_stable_gesture f (cur f) st)"
    if "f \<in> set fs" for f
    unfolding st1_def using that ng by (intro get_stable_gesture_other) auto
  have "stabilize (g # fs) cur s0 st = stabilize fs cur (s0(g := v)) st1"
    by (simp add: g)
  also have "\<dots> = ((\<lambda>f. if f \<in> set fs then fst (get_stable_gesture f (cur f) st1) else (s0(g := v)) f),
      st1\<lparr>gesture_buffer :=
           (\<lambda>f. if f \<in> set fs then deque_append maxlen (gesture_buffer st1 f) (cur f)
                else gesture_buffer st1 f)\<rparr>)"
    by (rule Cons.IH [OF d])
  also have "(\<lambda>f. if f \<in> set fs then fst (get_stable_gesture f (cur f) st1) else (s0(g := v)) f)
      = (\<lambda>f. if f \<in> set (g # fs) then fst (get_stable_gesture f (cur f) st) else s0 f)"
    using other by (auto simp: fun_eq_iff v_def)
  also have "st1\<lparr>gesture_buffer :=
           (\<lambda>f. if f \<in> set fs then deque_append maxlen (gesture_buffer st1 f) (cur f)
                else gesture_buffer st1 f)\<rparr>
     = st\<lparr>gesture_buffer :=
           (\<lambda>f. if f \<in> set (g # fs) then deque_append maxlen (gesture_buffer st f) (cur f)
                else gesture_buffer st f)\<rparr>"
    using ng by (auto simp: st1_def fun_eq_iff)
  finally show ?case .
qed

lemma all_fingers: "f \<in> set [Thumb, Index, Middle, Ring, Pinky]"
  by (cases f) simp_all

lemma stabilize_fingers:
  "stabilize [Thumb, Index, Middle, Ring, Pinky] cur s0 st =
     ((\<lambda>f. fst (get_stable_gesture f (cur f) st)),
      st\<lparr>gesture_buffer := (\<lambda>f. deque_append maxlen (gesture_buffer st f) (cur f))\<rparr>)"
proof -
  have "distinct [Thumb, Index, Middle, Ring, Pinky]" by simp
  from stabilize_distinct [OF this, of cur s0 st] show ?thesis
    by (simp only: all_fingers if_True)
qed

text \<open>The result of a call of process_gestures made while connected.\<close>

lemma process_gestures_returned:
  "esp32_connected st \<Longrightarrow>
   fst (process_gestures hl st) =
     Some (\<lambda>f. fst (get_stable_gesture f (detect_finger_states hl f) st))"
  unfolding process_gestures_def stabilize_fingers
  by (simp add: Let_def del: detect_finger_states.simps)

lemma process_gestures_state:
  "esp32_connected st \<Longrightarrow>
   fst (snd (process_gestures hl st)) =
      st\<lparr>gesture_buffer :=
            (\<lambda>f. deque_append maxlen (gesture_buffer st f) (detect_finger_states hl f)),
          prev_states := (\<lambda>f. fst (get_stable_gesture f (detect_finger_states hl f) st)),
          prev_all_down :=
            Some (\<not> list_ex truthy
                     (map (\<lambda>f. fst (get_stable_gesture f (detect_finger_states hl f) st))
                        [Thumb, Index, Middle, Ring, Pinky]))\<rparr>"
  unfolding process_gestures_def stabilize_fingers
  by (simp add: Let_def del: detect_finger_states.simps)

text \<open>
  The \<open>send_command\<close> calls of a cycle that are addressed to one finger come from
  that finger's conditional alone.
\<close>

lemma finger_sends_append: "finger_sends f (xs @ ys) = finger_sends f xs @ finger_sends f ys"
  by (simp add: finger_sends_def)

lemma finger_sends_command:
  "finger_sends f (finger_command g new old) = (if f = g then finger_command g new old else [])"
  by (cases f; cases g) (simp_all add: finger_sends_def finger_command_def)

lemma finger_sends_all_off:
  "finger_sends f [Send_command ''all/off'', Log INFO m] = []"
  by (cases f) (simp_all add: finger_sends_def)

lemma finger_sends_process:
  "esp32_connected st \<Longrightarrow>
   finger_sends f (snd (snd (process_gestures hl st))) =
     finger_command f (fst (get_stable_gesture f (detect_finger_states hl f) st)) (prev_states st f)"
  unfolding process_gestures_def stabilize_fingers
  by (cases f)
     (auto simp: Let_def finger_sends_append
        finger_sends_command finger_sends_all_off finger_sends_def [of _ "[]"]
        simp del: detect_finger_states.simps)

lemma finger_sends_disconnected:
  "\<not> esp32_connected st \<Longrightarrow> finger_sends f (snd (snd (process_gestures hl st))) = []"
  by (simp add: process_gestures_def finger_sends_def)

lemma process_gestures_result:
  "esp32_connected st \<Longrightarrow>
   process_gestures hl st =
     (Some (\<lambda>f. fst (get_stable_gesture f (detect_finger_states hl f) st)),
      fst (snd (process_gestures hl st)), snd (snd (process_gestures hl st)))"
  using process_gestures_returned [of st hl]
  by (cases "process_gestures hl st") simp

text \<open>Evaluation of the example hands and states.\<close>

lemma raw_index_hand: "detect_finger_states index_hand = (\<lambda>f. f = Index)"
proof
  fix f show "detect_finger_states index_hand f = (f = Index)"
    by (cases f)
       (simp_all add: index_hand_def closed_hand_def thumb_up_def hand_is_right_def margin_def)
qed

lemma raw_thumb_index_hand:
  "detect_finger_states thumb_index_hand = (\<lambda>f. f = Thumb \<or> f = Index)"
proof
  fix f show "detect_finger_states thumb_index_hand f = (f = Thumb \<or> f = Index)"
    by (cases f)
       (simp_all add: thumb_index_hand_def index_hand_def closed_hand_def thumb_up_def
          hand_is_right_def margin_def)
qed

lemmas eval_defs = process_gestures_def get_stable_gesture_def deque_append_def maxlen_def
  finger_command_def Let_def connected_state_def initial_state_def

lemma two_index_state_fields:
  "esp32_connected two_index_state"
  "prev_all_down two_index_state = Some True"
  "prev_states two_index_state f = None"
  "gesture_buffer two_index_state f = [f = Index, f = Index]"
  by (cases f; simp add: two_index_state_def eval_defs raw_index_hand
        del: detect_finger_states.simps)+

text \<open>A cycle on a state given field by field, for evaluating runs.\<close>

lemma raw_closed_hand: "detect_finger_states closed_hand = (\<lambda>f. False)"
proof
  fix f show "detect_finger_states closed_hand f = False"
    by (cases f) (simp_all add: closed_hand_def thumb_up_def hand_is_right_def margin_def)
qed

lemmas check_defs = check_esp32_connection_def ok_transport_def CONNECTION_CHECK_INTERVAL_def
  BASE_URL_def ESP32_IP_def

lemma first_check:
  "step (Check 10 ok_transport) initial_state =
     (\<lparr>prev_states = (\<lambda>_. None), prev_all_down = None, gesture_buffer = (\<lambda>_. []),
       esp32_connected = True, last_connection_check = 10\<rparr>,
      [Http_get ''http://192.168.4.1/status'' 1, Log INFO ''ESP32 connection established''])"
  by (simp add: check_defs initial_state_def Let_def)



lemma process_gestures_record:
  "process_gestures hl \<lparr>prev_states = p, prev_all_down = a, gesture_buffer = b,
       esp32_connected = True, last_connection_check = t\<rparr> =
     (let cur = detect_finger_states hl;
          w = (\<lambda>f. deque_append maxlen (b f) (cur f));
          s = (\<lambda>f. if length (w f) = maxlen \<and> (list_all id (w f) \<or> \<not> list_ex id (w f))
                    then Some (last (w f)) else p f);
          ad = (\<not> list_ex truthy (map s [Thumb, Index, Middle, Ring, Pinky]))
      in (Some s,
          \<lparr>prev_states = s, prev_all_down = Some ad, gesture_buffer = w,
            esp32_connected = True, last_connection_check = t\<rparr>,
          finger_command Thumb (s Thumb) (p Thumb)
          @ finger_command Index (s Index) (p Index)
          @ finger_command Middle (s Middle) (p Middle)
          @ finger_command Ring (s Ring) (p Ring)
          @ finger_command Pinky (s Pinky) (p Pinky)
          @ (if ad \<and> \<not> truthy a
             then [Send_command ''all/off'', Log INFO ''All fingers down - all LEDs OFF'']
             else [])))"
  unfolding process_gestures_def stabilize_fingers Let_def get_stable_gesture_fst
  by (simp del: detect_finger_states.simps split del: if_split cong: if_cong)


lemma finger_command_None: "finger_command f None old = []"
  by (simp add: finger_command_def)

lemma finger_command_Some:
  "finger_command f (Some b) old =
     (if old = Some b then []
      else [Send_command (finger_name f @ (if b then ''/on'' else ''/off''))])"
  by (auto simp: finger_command_def)

lemmas cycle_eval = process_gestures_record Let_def deque_append_def maxlen_def
  finger_command_None finger_command_Some

text \<open>The window is the list of the most recent readings.\<close>

lemma most_recent_Nil: "most_recent n [] = []"
  by (simp add: most_recent_def)

lemma deque_append_most_recent:
  "0 < n \<Longrightarrow> deque_append n (most_recent n xs) v = most_recent n (xs @ [v])"
proof (cases "length xs < n")
  case True
  then show ?thesis by (simp add: deque_append_def most_recent_def)
next
  case False
  assume n: "0 < n"
  have l: "length (drop (length xs - n) xs) = n" using False by simp
  have "tl (drop (length xs - n) xs) = drop (Suc (length xs - n)) xs"
    by (simp add: drop_Suc tl_drop)
  moreover have "Suc (length xs - n) = Suc (length xs) - n" using False by simp
  ultimately show ?thesis
    using False n by (simp add: deque_append_def most_recent_def)
qed

lemma feed_window:
  "gesture_buffer st finger = most_recent maxlen xs \<Longrightarrow>
   gesture_buffer (feed finger readings st) finger = most_recent maxlen (xs @ readings)"
proof (induction readings arbitrary: st xs)
  case Nil
  then show ?case by simp
next
  case (Cons v vs)
  have "gesture_buffer (snd (get_stable_gesture finger v st)) finger
          = most_recent maxlen (xs @ [v])"
    by (simp add: get_stable_gesture_snd Cons.prems deque_append_most_recent maxlen_def)
  from Cons.IH [OF this] show ?case by simp
qed

lemma feed_prev_states: "prev_states (feed finger readings st) = prev_states st"
  by (induction readings arbitrary: st) (simp_all add: get_stable_gesture_snd)

lemma most_recent_length: "length (most_recent n xs) = min n (length xs)"
  by (auto simp: most_recent_def)

lemma most_recent_full: "length (most_recent n xs) = n \<Longrightarrow> n \<le> length xs"
  unfolding most_recent_length by linarith

lemma most_recent_last: "xs \<noteq> [] \<Longrightarrow> 0 < n \<Longrightarrow> last (most_recent n xs) = last xs"
  by (simp add: most_recent_def)

lemma feed_two_index:
  "gesture_buffer (feed Index [True, True] connected_state) Index = [True, True]"
  by (simp add: get_stable_gesture_snd deque_append_def maxlen_def connected_state_def
        initial_state_def)

text \<open>
  C1. Let any sequence of readings be fed to \<open>get_stable_gesture\<close> for a finger whose
  window was empty, and let the next call be made with the window they left (the
  record of previous states may be anything by then). The window after that call is
  the list of the most recent readings, at most 3 of them. The returned value differs
  from the recorded \<open>prev_states\<close> entry of the finger only if at least 3 readings
  have been fed and the 3 most recent ones all agree, and then the returned value is
  the unanimous one; whenever the window holds 3 agreeing entries (all true or all
  false) that value is returned; on a window that is not full or not unanimous the
  recorded value is returned.
\<close>

theorem get_stable_gesture_debounce:
  assumes "gesture_buffer st0 finger = []"
      and "gesture_buffer st finger = gesture_buffer (feed finger readings st0) finger"
      and "get_stable_gesture finger current_state st = (r, st')"
  shows "gesture_buffer st' finger = most_recent 3 (readings @ [current_state]) \<and>
   (r \<noteq> prev_states st finger \<longrightarrow>
      3 \<le> length (readings @ [current_state]) \<and>
      length (gesture_buffer st' finger) = 3 \<and>
      (\<forall>v \<in> set (most_recent 3 (readings @ [current_state])). v = current_state) \<and>
      r = Some current_state) \<and>
   (length (gesture_buffer st' finger) = 3 \<and>
      ((\<forall>v \<in> set (gesture_buffer st' finger). v) \<or>
       (\<forall>v \<in> set (gesture_buffer st' finger). \<not> v)) \<longrightarrow>
      r = Some current_state \<and> (\<forall>v \<in> set (gesture_buffer st' finger). v = current_state)) \<and>
   (\<not> (length (gesture_buffer st' finger) = 3 \<and>
      ((\<forall>v \<in> set (gesture_buffer st' finger). v) \<or>
       (\<forall>v \<in> set (gesture_buffer st' finger). \<not> v))) \<longrightarrow>
      r = prev_states st finger)"
proof -
  have "gesture_buffer st0 finger = most_recent maxlen []"
    using assms(1) by (simp add: most_recent_Nil)
  from feed_window [OF this, of readings]
  have b: "gesture_buffer st finger = most_recent maxlen readings"
    using assms(2) by simp
  have w: "gesture_buffer st' finger = most_recent 3 (readings @ [current_state])"
    using get_stable_gesture_value(1) [OF assms(3)] b
    by (simp add: deque_append_most_recent maxlen_def)
  have n: "length (gesture_buffer st' finger) = 3 \<longrightarrow> 3 \<le> length (readings @ [current_state])"
    unfolding w using most_recent_full [of 3 "readings @ [current_state]"] by blast
  have u: "(\<forall>v \<in> set (most_recent 3 (readings @ [current_state])). v = current_state)
            = (\<forall>v \<in> set (gesture_buffer st' finger). v = current_state)"
    unfolding w ..
  show ?thesis
    using w n unfolding u get_stable_gesture_value(3) [OF assms(3)]
    using get_stable_gesture_value(2) [OF assms(3)] by presburger
qed

theorem get_stable_gesture_debounce_witness:
  "gesture_buffer connected_state Index = [] \<and>
   gesture_buffer two_index_state Index
     = gesture_buffer (feed Index [True, True] connected_state) Index \<and>
   fst (get_stable_gesture Index True two_index_state) = Some True \<and>
   prev_states two_index_state Index = None \<and>
   gesture_buffer (snd (get_stable_gesture Index True two_index_state)) Index
     = most_recent 3 ([True, True] @ [True]) \<and>
   most_recent 3 ([True, True] @ [True]) = [True, True, True]"
proof -
  have 1: "gesture_buffer connected_state Index = []"
    by (simp add: connected_state_def initial_state_def)
  have 2: "gesture_buffer two_index_state Index
     = gesture_buffer (feed Index [True, True] connected_state) Index"
    by (simp only: feed_two_index two_index_state_fields) simp
  from get_stable_gesture_debounce [OF 1 2 surjective_pairing, of True]
  show ?thesis
    using 1 2
    by (simp add: get_stable_gesture_def deque_append_def maxlen_def Let_def
          two_index_state_fields most_recent_def)
qed

subsection \<open>The orchestrator\<close>

text \<open>
  C4. In a cycle that processes a hand (the call returns the new stable states), the
  \<open>send_command\<close> calls for a finger are exactly: one call, with the finger's
  \<open>on\<close> endpoint for a new value \<open>True\<close> and its \<open>off\<close> endpoint for \<open>False\<close>, if
  the new stable state differs from the recorded previous one and is not \<open>None\<close>;
  none otherwise. The new stable states become the recorded ones, so a following cycle
  that computes the same stable state for the finger dispatches nothing for it.
\<close>

theorem process_gestures_edge_triggered:
  assumes "process_gestures hl st = (Some stable_states, st', evs)"
  shows "finger_sends f evs =
           (if stable_states f \<noteq> prev_states st f \<and> stable_states f \<noteq> None
            then [Send_command (finger_name f @ (if stable_states f = Some True then ''/on'' else ''/off''))]
            else [])
         \<and> prev_states st' = stable_states
         \<and> (fst (process_gestures hl2 st') = Some stable_states2 \<and> stable_states2 f = stable_states f
              \<longrightarrow> finger_sends f (snd (snd (process_gestures hl2 st'))) = [])"
proof -
  have c: "esp32_connected st"
    using assms by (cases "esp32_connected st") (simp_all add: process_gestures_def)
  have s: "stable_states = (\<lambda>f. fst (get_stable_gesture f (detect_finger_states hl f) st))"
    using assms process_gestures_returned [OF c, of hl] by simp
  have st': "prev_states st' = stable_states" "esp32_connected st'"
    using assms process_gestures_state [OF c, of hl] c by (simp_all add: s)
  have e: "finger_sends f evs = finger_command f (stable_states f) (prev_states st f)"
    using assms finger_sends_process [OF c, of f hl] by (simp add: s)
  have t: "truthy (stable_states f) = (stable_states f = Some True)"
    by (cases "stable_states f") simp_all
  have 1: "finger_sends f evs =
           (if stable_states f \<noteq> prev_states st f \<and> stable_states f \<noteq> None
            then [Send_command (finger_name f @ (if stable_states f = Some True then ''/on'' else ''/off''))]
            else [])"
    unfolding e finger_command_def t ..
  have 2: "finger_sends f (snd (snd (process_gestures hl2 st'))) = []"
    if "fst (process_gestures hl2 st') = Some stable_states2" "stable_states2 f = stable_states f"
  proof -
    have "stable_states2 f = fst (get_stable_gesture f (detect_finger_states hl2 f) st')"
      using that(1) process_gestures_returned [OF st'(2), of hl2] by auto
    then show ?thesis
      using that(2) by (simp add: finger_sends_process [OF st'(2)] finger_command_def st'(1))
  qed
  show ?thesis using 1 st'(1) 2 by blast
qed


theorem process_gestures_edge_triggered_witness:
  "finger_sends Index (snd (snd (process_gestures index_hand two_index_state)))
     = [Send_command ''index/on''] \<and>
   prev_states two_index_state Index = None \<and>
   prev_states (fst (snd (process_gestures index_hand two_index_state))) Index = Some True \<and>
   finger_sends Index
     (snd (snd (process_gestures index_hand
                  (fst (snd (process_gestures index_hand two_index_state)))))) = []"
proof -
  let ?st' = "fst (snd (process_gestures index_hand two_index_state))"
  have c: "esp32_connected ?st'"
    by (simp add: process_gestures_state two_index_state_fields)
  have n: "fst (get_stable_gesture Index (detect_finger_states index_hand Index) two_index_state)
            = Some True"
    by (simp add: get_stable_gesture_def deque_append_def maxlen_def Let_def
          two_index_state_fields raw_index_hand del: detect_finger_states.simps)
  have p: "prev_states ?st' Index = Some True"
    by (simp add: process_gestures_state two_index_state_fields n
          del: detect_finger_states.simps)
  have b: "gesture_buffer ?st' Index = [True, True, True]"
    by (simp add: process_gestures_state two_index_state_fields deque_append_def maxlen_def
          raw_index_hand del: detect_finger_states.simps)
  have n2: "fst (get_stable_gesture Index (detect_finger_states index_hand Index) ?st') = Some True"
    by (simp add: get_stable_gesture_def deque_append_def maxlen_def Let_def b
          raw_index_hand del: detect_finger_states.simps)
  note t = process_gestures_edge_triggered
      [OF process_gestures_result [OF two_index_state_fields(1), of index_hand],
       of Index index_hand
          "\<lambda>f. fst (get_stable_gesture f (detect_finger_states index_hand f) ?st')"]
  show ?thesis
    using t by (simp add: process_gestures_returned [OF c] n n2 p two_index_state_fields
                  del: detect_finger_states.simps)
qed

lemma run_snoc:
  "run (cs @ [c]) st =
     (case run cs st of (st1, evss) \<Rightarrow>
        (case step c st1 of (st2, evs) \<Rightarrow> (st2, evss @ [evs])))"
  by (induction cs arbitrary: st) (auto split: prod.splits)

lemma step_window:
  "gesture_buffer st finger = most_recent maxlen xs \<Longrightarrow>
   gesture_buffer (fst (step c st)) finger = most_recent maxlen (xs @ readings_fed finger [c] st)"
proof (cases c)
  case (Process hl)
  assume w: "gesture_buffer st finger = most_recent maxlen xs"
  show ?thesis
  proof (cases "esp32_connected st")
    case True
    have "fst (step c st) = fst (snd (process_gestures hl st))"
      by (simp add: Process split: prod.splits)
    then show ?thesis
      using True w
      by (simp add: Process process_gestures_state deque_append_most_recent maxlen_def)
  next
    case False
    then show ?thesis using w by (simp add: Process process_gestures_def)
  qed
next
  case (Check t transport)
  assume w: "gesture_buffer st finger = most_recent maxlen xs"
  have "gesture_buffer (fst (snd (check_esp32_connection t transport st))) = gesture_buffer st"
    by (simp add: check_esp32_connection_def Let_def split: http_outcome.splits)
  moreover have "fst (step c st) = fst (snd (check_esp32_connection t transport st))"
    by (simp add: Check split: prod.splits)
  ultimately show ?thesis using w by (simp add: Check)
qed

lemma readings_fed_Cons:
  "readings_fed finger (c # cs) st =
     readings_fed finger [c] st @ readings_fed finger cs (fst (step c st))"
  by (cases c) simp_all

lemma run_Cons_fst: "fst (run (c # cs) st) = fst (run cs (fst (step c st)))"
  by (simp split: prod.splits)

lemma run_window:
  "gesture_buffer st finger = most_recent maxlen xs \<Longrightarrow>
   gesture_buffer (fst (run calls st)) finger
     = most_recent maxlen (xs @ readings_fed finger calls st)"
proof (induction calls arbitrary: st xs)
  case Nil
  then show ?case by simp
next
  case (Cons c cs)
  from Cons.IH [OF step_window [OF Cons.prems, of c]]
  show ?case
    unfolding run_Cons_fst readings_fed_Cons [of finger c cs st] by simp
qed

lemma initial_window: "gesture_buffer initial_state f = most_recent maxlen []"
  by (simp add: initial_state_def most_recent_Nil)

text \<open>
  C2 (as amended). In every run from the initial state, a cycle that dispatches a
  command for a finger is a cycle by which at least 3 raw readings of that finger have
  been fed to its debounce window, the window holds the 3 most recent of them, and
  these all agree with the reading of this cycle; the command is the one for the
  unanimous value. So no command for a finger precedes the first full, unanimous
  window of that finger. The windows of the other fingers play no part, and \<open>all/off\<close>
  is not covered.
\<close>

theorem finger_command_needs_unanimous_window:
  assumes "run (calls @ [Process hl]) initial_state = (st', evss)"
      and "finger_sends f (last evss) \<noteq> []"
  shows "3 \<le> length (readings_fed f (calls @ [Process hl]) initial_state) \<and>
         gesture_buffer st' f
           = most_recent 3 (readings_fed f (calls @ [Process hl]) initial_state) \<and>
         last (readings_fed f (calls @ [Process hl]) initial_state)
           = detect_finger_states hl f \<and>
         (\<forall>v \<in> set (most_recent 3 (readings_fed f (calls @ [Process hl]) initial_state)).
             v = detect_finger_states hl f) \<and>
         length (gesture_buffer st' f) = 3 \<and>
         ((\<forall>v \<in> set (gesture_buffer st' f). v) \<or> (\<forall>v \<in> set (gesture_buffer st' f). \<not> v)) \<and>
         finger_sends f (last evss) =
           [Send_command (finger_name f @ (if last (gesture_buffer st' f) then ''/on'' else ''/off''))]"
proof -
  let ?rs = "readings_fed f (calls @ [Process hl]) initial_state"
  obtain st evss0 where r: "run calls initial_state = (st, evss0)"
    by (cases "run calls initial_state")
  obtain res st1 evs where p: "process_gestures hl st = (res, st1, evs)"
    by (cases "process_gestures hl st")
  have "run (calls @ [Process hl]) initial_state = (st1, evss0 @ [evs])"
    by (simp add: run_snoc r p)
  with assms(1) have st': "st' = fst (snd (process_gestures hl st))"
    and l: "last evss = snd (snd (process_gestures hl st))"
    by (auto simp: p)
  have c: "esp32_connected st"
    using assms(2) finger_sends_disconnected [of st f hl] unfolding l by blast
  define cur where "cur = detect_finger_states hl f"
  obtain v st2 where g: "get_stable_gesture f cur st = (v, st2)"
    by (cases "get_stable_gesture f cur st")
  note gv = get_stable_gesture_value [OF g]
  have b: "gesture_buffer st' f = gesture_buffer st2 f"
    by (simp add: st' process_gestures_state [OF c] cur_def gv(1))
  have e: "finger_sends f (last evss) = finger_command f v (prev_states st f)"
    using g by (simp add: l finger_sends_process [OF c] cur_def)
  have d: "v \<noteq> prev_states st f"
    using assms(2) unfolding e finger_command_def by (simp split: if_splits)
  have 1: "length (gesture_buffer st2 f) = 3 \<and> (\<forall>x \<in> set (gesture_buffer st2 f). x = cur)"
    and 3: "v = Some cur"
    using gv(2) d by presburger+
  have old: "length (gesture_buffer st' f) = 3 \<and>
         ((\<forall>v \<in> set (gesture_buffer st' f). v) \<or> (\<forall>v \<in> set (gesture_buffer st' f). \<not> v)) \<and>
         finger_sends f (last evss) =
           [Send_command (finger_name f @ (if last (gesture_buffer st' f) then ''/on'' else ''/off''))]"
    unfolding b e gv(3) gv(4) using 1 3 d by (simp add: finger_command_def)
  have "gesture_buffer (fst (run (calls @ [Process hl]) initial_state)) f
          = most_recent maxlen ([] @ ?rs)"
    by (rule run_window [OF initial_window])
  then have w: "gesture_buffer st' f = most_recent 3 ?rs"
    using assms(1) by (simp add: maxlen_def)
  have "length (most_recent 3 ?rs) = 3"
    using old unfolding w by blast
  then have len: "3 \<le> length ?rs"
    by (rule most_recent_full)
  then have ne: "?rs \<noteq> []" by auto
  have "last (gesture_buffer st' f) = cur"
    unfolding b by (rule gv(4))
  then have la: "last ?rs = cur"
    unfolding w using most_recent_last [OF ne, of 3] by simp
  have al: "\<forall>v \<in> set (most_recent 3 ?rs). v = cur"
    using 1 unfolding b [symmetric] w by simp
  show ?thesis
    using len w la al old unfolding cur_def by blast
qed

theorem finger_command_needs_unanimous_window_witness:
  "finger_sends Index
     (last (snd (run ([Check 10 ok_transport, Process index_hand, Process index_hand]
                        @ [Process index_hand]) initial_state)))
     = [Send_command ''index/on''] \<and>
   readings_fed Index ([Check 10 ok_transport, Process index_hand, Process index_hand]
                         @ [Process index_hand]) initial_state
     = [True, True, True] \<and>
   gesture_buffer
     (fst (run ([Check 10 ok_transport, Process index_hand, Process index_hand]
                  @ [Process index_hand]) initial_state)) Index
     = [True, True, True]"
  using finger_command_needs_unanimous_window
    [OF surjective_pairing,
     of Index "[Check 10 ok_transport, Process index_hand, Process index_hand]" index_hand]
  by (simp add: first_check cycle_eval raw_index_hand finger_sends_def
      del: detect_finger_states.simps step.simps(2))

text \<open>
  C2 as stated fails. On the first cycle after the connection is found, \<open>all/off\<close> is
  dispatched while every window holds a single entry. And \<open>index/on\<close> is dispatched on
  the third cycle of a run in which the thumb's window has been \<open>[True]\<close>,
  \<open>[True, False]\<close> and \<open>[True, False, True]\<close>, never full and unanimous.
\<close>

theorem all_off_before_any_window:
  "snd (run [Check 10 ok_transport, Process closed_hand] initial_state) =
     [[Http_get ''http://192.168.4.1/status'' 1, Log INFO ''ESP32 connection established''],
      [Send_command ''all/off'', Log INFO ''All fingers down - all LEDs OFF'']] \<and>
   gesture_buffer (fst (run [Check 10 ok_transport, Process closed_hand] initial_state)) Thumb = [False] \<and>
   gesture_buffer (fst (run [Check 10 ok_transport, Process closed_hand] initial_state)) Index = [False] \<and>
   gesture_buffer (fst (run [Check 10 ok_transport, Process closed_hand] initial_state)) Middle = [False] \<and>
   gesture_buffer (fst (run [Check 10 ok_transport, Process closed_hand] initial_state)) Ring = [False] \<and>
   gesture_buffer (fst (run [Check 10 ok_transport, Process closed_hand] initial_state)) Pinky = [False] \<and>
   snd (run [Check 10 ok_transport, Process thumb_index_hand, Process index_hand,
             Process thumb_index_hand] initial_state) =
     [[Http_get ''http://192.168.4.1/status'' 1, Log INFO ''ESP32 connection established''],
      [Send_command ''all/off'', Log INFO ''All fingers down - all LEDs OFF''],
      [],
      [Send_command ''index/on'', Send_command ''middle/off'', Send_command ''ring/off'',
       Send_command ''pinky/off'']] \<and>
   gesture_buffer (fst (run [Check 10 ok_transport, Process thumb_index_hand] initial_state)) Thumb
     = [True] \<and>
   gesture_buffer (fst (run [Check 10 ok_transport, Process thumb_index_hand, Process index_hand]
                          initial_state)) Thumb
     = [True, False] \<and>
   gesture_buffer (fst (run [Check 10 ok_transport, Process thumb_index_hand, Process index_hand,
                             Process thumb_index_hand] initial_state)) Thumb
     = [True, False, True]"
  by (simp add: first_check cycle_eval raw_index_hand raw_closed_hand raw_thumb_index_hand
      del: detect_finger_states.simps step.simps(2))


text \<open>
  C3 (as amended). From the initial state with the connection flag set, three cycles
  whose raw readings are true for the index finger and false for the other four
  dispatch: \<open>all/off\<close> on the first cycle (every stable state is still unknown, so
  \<open>all_down\<close> is computed true), nothing on the second, and on the third \<open>thumb/off\<close>,
  \<open>index/on\<close>, \<open>middle/off\<close>, \<open>ring/off\<close> and \<open>pinky/off\<close>, each once. \<open>all_down\<close> is
  true on the first two cycles and false on the third.
\<close>

theorem index_scenario:
  assumes "detect_finger_states h1 = (\<lambda>f. f = Index)"
      and "detect_finger_states h2 = (\<lambda>f. f = Index)"
      and "detect_finger_states h3 = (\<lambda>f. f = Index)"
  shows "snd (run [Process h1, Process h2, Process h3] connected_state) =
           [[Send_command ''all/off'', Log INFO ''All fingers down - all LEDs OFF''],
            [],
            [Send_command ''thumb/off'', Send_command ''index/on'', Send_command ''middle/off'',
             Send_command ''ring/off'', Send_command ''pinky/off'']] \<and>
         prev_all_down (fst (run [Process h1] connected_state)) = Some True \<and>
         prev_all_down (fst (run [Process h1, Process h2] connected_state)) = Some True \<and>
         prev_all_down (fst (run [Process h1, Process h2, Process h3] connected_state)) = Some False"
  by (simp add: cycle_eval connected_state_def initial_state_def assms
        del: detect_finger_states.simps)

theorem index_scenario_witness:
  "detect_finger_states index_hand = (\<lambda>f. f = Index) \<and>
   snd (run [Process index_hand, Process index_hand, Process index_hand] connected_state) =
           [[Send_command ''all/off'', Log INFO ''All fingers down - all LEDs OFF''],
            [],
            [Send_command ''thumb/off'', Send_command ''index/on'', Send_command ''middle/off'',
             Send_command ''ring/off'', Send_command ''pinky/off'']] \<and>
   prev_all_down (fst (run [Process index_hand, Process index_hand, Process index_hand]
                         connected_state)) = Some False"
  using index_scenario [OF raw_index_hand raw_index_hand raw_index_hand] raw_index_hand
  by simp

text \<open>
  C3 as stated fails on \<open>index_hand\<close>: the three cycles dispatch six commands, not
  \<open>index/on\<close> alone, and \<open>all_down\<close> is true after the first cycle.
\<close>

theorem index_scenario_more_commands:
  "detect_finger_states index_hand Index \<and>
   \<not> detect_finger_states index_hand Thumb \<and>
   \<not> detect_finger_states index_hand Middle \<and>
   \<not> detect_finger_states index_hand Ring \<and>
   \<not> detect_finger_states index_hand Pinky \<and>
   concat (snd (run [Process index_hand, Process index_hand, Process index_hand] connected_state))
     = [Send_command ''all/off'', Log INFO ''All fingers down - all LEDs OFF'',
        Send_command ''thumb/off'', Send_command ''index/on'', Send_command ''middle/off'',
        Send_command ''ring/off'', Send_command ''pinky/off''] \<and>
   prev_all_down (fst (run [Process index_hand] connected_state)) = Some True"
  by (simp add: cycle_eval connected_state_def initial_state_def raw_index_hand
      del: detect_finger_states.simps)

text \<open>
  C10. A call of \<open>process_gestures\<close> made while \<open>esp32_connected\<close> is false returns at
  once: it returns \<open>None\<close>, dispatches no command (no event at all), and leaves the
  whole state as it was, so no debounce window receives the reading and the record of
  previous states is unchanged.
\<close>

theorem process_gestures_disconnected:
  "\<not> esp32_connected st \<Longrightarrow> process_gestures hl st = (None, st, [])"
  by (simp add: process_gestures_def)

theorem process_gestures_disconnected_witness:
  "\<not> esp32_connected initial_state \<and>
   process_gestures index_hand initial_state = (None, initial_state, [])"
  using process_gestures_disconnected [of initial_state index_hand]
  by (simp add: initial_state_def)

subsection \<open>The command dispatcher\<close>

declare send_loop.simps [simp del]

lemma attempts_Cons:
  "attempts (e # evs) = (if is_request e then Suc (attempts evs) else attempts evs)"
  by (simp add: attempts_def)

lemma attempts_Nil: "attempts [] = 0"
  by (simp add: attempts_def)

lemma send_loop_done:
  "\<not> attempt < retries \<Longrightarrow> send_loop endpoint retries transport attempt = []"
  by (simp add: send_loop.simps)

lemma send_loop_timeout:
  "attempt < retries \<Longrightarrow> transport (BASE_URL @ ''/led/'' @ endpoint) attempt = Raises_Timeout \<Longrightarrow>
   send_loop endpoint retries transport attempt =
     Http_get (BASE_URL @ ''/led/'' @ endpoint) REQUEST_TIMEOUT #
     Log WARNING (''Timeout sending '' @ endpoint @ '' (attempt ''
                  @ str_int (attempt + 1) @ ''/'' @ str_int retries @ '')'') #
     Sleep 0.1 # send_loop endpoint retries transport (attempt + 1)"
  by (subst send_loop.simps) (simp add: Let_def)

lemma send_loop_not_ok:
  "attempt < retries \<Longrightarrow>
   transport (BASE_URL @ ''/led/'' @ endpoint) attempt = Response status_code text \<Longrightarrow>
   status_code \<noteq> 200 \<Longrightarrow>
   send_loop endpoint retries transport attempt =
     Http_get (BASE_URL @ ''/led/'' @ endpoint) REQUEST_TIMEOUT #
     Sleep 0.1 # send_loop endpoint retries transport (attempt + 1)"
  by (subst send_loop.simps) (simp add: Let_def)

lemma send_loop_other:
  "attempt < retries \<Longrightarrow>
   transport (BASE_URL @ ''/led/'' @ endpoint) attempt = Raises_Other e \<Longrightarrow>
   send_loop endpoint retries transport attempt =
     [Http_get (BASE_URL @ ''/led/'' @ endpoint) REQUEST_TIMEOUT,
      Log ERROR (''Error sending '' @ endpoint @ '': '' @ e)]"
  by (subst send_loop.simps) (simp add: Let_def)

lemma send_loop_all_timeouts:
  "(\<And>url a. transport url a = Raises_Timeout) \<Longrightarrow>
   attempts (send_loop endpoint retries transport attempt) = nat (retries - attempt)"
proof (induction endpoint retries transport attempt rule: send_loop.induct)
  case (1 endpoint retries transport attempt)
  show ?case
  proof (cases "attempt < retries")
    case True
    have t: "transport (BASE_URL @ ''/led/'' @ endpoint) attempt = Raises_Timeout"
      by (rule "1.prems")
    have "attempts (send_loop endpoint retries transport (attempt + 1)) = nat (retries - (attempt + 1))"
      by (rule "1.IH"(2) [OF True refl t "1.prems"])
    then show ?thesis
      using True by (simp add: send_loop_timeout [where transport = transport and endpoint = endpoint, OF True t] attempts_Cons nat_diff_distrib')
  next
    case False
    then show ?thesis by (simp add: send_loop_done attempts_Nil)
  qed
qed

lemma send_loop_retried_then_other:
  "attempt \<le> k \<Longrightarrow> k < retries \<Longrightarrow>
   (\<And>a. attempt \<le> a \<Longrightarrow> a < k \<Longrightarrow> retried (transport (BASE_URL @ ''/led/'' @ endpoint) a)) \<Longrightarrow>
   transport (BASE_URL @ ''/led/'' @ endpoint) k = Raises_Other e \<Longrightarrow>
   attempts (send_loop endpoint retries transport attempt) = nat (k - attempt) + 1 \<and>
   last (send_loop endpoint retries transport attempt)
     = Log ERROR (''Error sending '' @ endpoint @ '': '' @ e) \<and>
   filter is_error_log (send_loop endpoint retries transport attempt)
     = [Log ERROR (''Error sending '' @ endpoint @ '': '' @ e)]"
proof (induction endpoint retries transport attempt rule: send_loop.induct)
  case (1 endpoint retries transport attempt)
  let ?url = "BASE_URL @ ''/led/'' @ endpoint"
  have lt: "attempt < retries" using "1.prems"(1,2) by simp
  show ?case
  proof (cases "attempt = k")
    case True
    then show ?thesis
      using send_loop_other [where transport = transport and endpoint = endpoint and e = e, OF lt] "1.prems"(4)
      by (simp add: attempts_Cons attempts_Nil)
  next
    case False
    then have ak: "attempt < k" using "1.prems"(1) by simp
    have r: "retried (transport ?url attempt)"
      using "1.prems"(3) [of attempt] ak by simp
    have next_ok: "attempt + 1 \<le> k" using ak by simp
    have nat_eq: "nat (k - attempt) = Suc (nat (k - (attempt + 1)))" using ak by simp
    show ?thesis
    proof (cases "transport ?url attempt")
      case (Response status_code body)
      then have ne: "status_code \<noteq> 200" using r by simp
      have ih: "attempts (send_loop endpoint retries transport (attempt + 1)) = nat (k - (attempt + 1)) + 1 \<and>
          last (send_loop endpoint retries transport (attempt + 1))
            = Log ERROR (''Error sending '' @ endpoint @ '': '' @ e) \<and>
          filter is_error_log (send_loop endpoint retries transport (attempt + 1))
            = [Log ERROR (''Error sending '' @ endpoint @ '': '' @ e)]"
        using "1.IH"(1) [OF lt refl Response ne next_ok "1.prems"(2) _ "1.prems"(4)] "1.prems"(3)
        by simp
      then have "send_loop endpoint retries transport (attempt + 1) \<noteq> []" by auto
      then show ?thesis
        using ih by (simp add: send_loop_not_ok [where transport = transport and endpoint = endpoint, OF lt Response ne] attempts_Cons nat_eq)
    next
      case Raises_Timeout
      have ih: "attempts (send_loop endpoint retries transport (attempt + 1)) = nat (k - (attempt + 1)) + 1 \<and>
          last (send_loop endpoint retries transport (attempt + 1))
            = Log ERROR (''Error sending '' @ endpoint @ '': '' @ e) \<and>
          filter is_error_log (send_loop endpoint retries transport (attempt + 1))
            = [Log ERROR (''Error sending '' @ endpoint @ '': '' @ e)]"
        using "1.IH"(2) [OF lt refl Raises_Timeout next_ok "1.prems"(2) _ "1.prems"(4)] "1.prems"(3)
        by simp
      then have "send_loop endpoint retries transport (attempt + 1) \<noteq> []" by auto
      then show ?thesis
        using ih by (simp add: send_loop_timeout [where transport = transport and endpoint = endpoint, OF lt Raises_Timeout] attempts_Cons nat_eq)
    next
      case Raises_ConnectionError
      then show ?thesis using r by simp
    next
      case (Raises_Other x)
      then show ?thesis using r by simp
    qed
  qed
qed

text \<open>
  C5. Run against a transport on which every attempt raises a timeout, the delivery
  routine started with \<open>MAX_RETRIES\<close> makes exactly 2 requests, each followed by
  the warning and the pause, and then ends; started with any number of retries it
  makes exactly that many requests.
\<close>

theorem send_timeout_attempts:
  assumes "\<forall>url attempt. transport url attempt = Raises_Timeout"
  shows "attempts (send endpoint MAX_RETRIES transport) = 2 \<and>
         send endpoint MAX_RETRIES transport =
           [Http_get (BASE_URL @ ''/led/'' @ endpoint) REQUEST_TIMEOUT,
            Log WARNING (''Timeout sending '' @ endpoint @ '' (attempt 1/2)''),
            Sleep 0.1,
            Http_get (BASE_URL @ ''/led/'' @ endpoint) REQUEST_TIMEOUT,
            Log WARNING (''Timeout sending '' @ endpoint @ '' (attempt 2/2)''),
            Sleep 0.1] \<and>
         attempts (send endpoint retries transport) = nat retries"
proof -
  have t: "transport url a = Raises_Timeout" for url a
    using assms by simp
  have s: "str_int 1 = ''1''" "str_int 2 = ''2''"
    by (simp_all add: str_int_def digit_char_def)
  have l: "send endpoint MAX_RETRIES transport =
           [Http_get (BASE_URL @ ''/led/'' @ endpoint) REQUEST_TIMEOUT,
            Log WARNING (''Timeout sending '' @ endpoint @ '' (attempt 1/2)''),
            Sleep 0.1,
            Http_get (BASE_URL @ ''/led/'' @ endpoint) REQUEST_TIMEOUT,
            Log WARNING (''Timeout sending '' @ endpoint @ '' (attempt 2/2)''),
            Sleep 0.1]"
    unfolding send_def MAX_RETRIES_def
    by (simp add: send_loop_timeout [where transport = transport and endpoint = endpoint, OF _ t]
          send_loop_done s)
  have n: "attempts (send endpoint retries transport) = nat retries"
    unfolding send_def using send_loop_all_timeouts [of transport endpoint retries 0] t by simp
  show ?thesis
    using n unfolding l by (simp add: attempts_def)
qed

theorem send_timeout_attempts_witness:
  "(\<forall>url attempt. always_timeout url attempt = Raises_Timeout) \<and>
   attempts (send ''thumb/on'' MAX_RETRIES always_timeout) = 2 \<and>
   send ''thumb/on'' MAX_RETRIES always_timeout =
     [Http_get ''http://192.168.4.1/led/thumb/on'' 1,
      Log WARNING ''Timeout sending thumb/on (attempt 1/2)'', Sleep 0.1,
      Http_get ''http://192.168.4.1/led/thumb/on'' 1,
      Log WARNING ''Timeout sending thumb/on (attempt 2/2)'', Sleep 0.1]"
  using send_timeout_attempts [of always_timeout "''thumb/on''" 2]
  by (simp add: always_timeout_def BASE_URL_def ESP32_IP_def REQUEST_TIMEOUT_def attempts_def)

text \<open>
  C6 (as amended). If an attempt raises an exception that is neither a timeout nor a
  connection error, the routine logs at error level and ends right after that attempt:
  when the attempts before attempt \<open>k\<close> were timeouts or responses with a status other
  than 200 (each followed by the pause and the next attempt) and attempt \<open>k\<close> raises
  such an exception, the run makes \<open>k + 1\<close> requests, its last event is the error log,
  and that is its only error log.
\<close>

theorem send_aborts_on_other_exception:
  assumes "0 \<le> k" and "k < retries"
      and "\<forall>a. 0 \<le> a \<and> a < k \<longrightarrow> retried (transport (BASE_URL @ ''/led/'' @ endpoint) a)"
      and "transport (BASE_URL @ ''/led/'' @ endpoint) k = Raises_Other e"
  shows "send_loop endpoint retries transport k =
           [Http_get (BASE_URL @ ''/led/'' @ endpoint) REQUEST_TIMEOUT,
            Log ERROR (''Error sending '' @ endpoint @ '': '' @ e)] \<and>
         attempts (send endpoint retries transport) = nat k + 1 \<and>
         last (send endpoint retries transport)
           = Log ERROR (''Error sending '' @ endpoint @ '': '' @ e) \<and>
         filter is_error_log (send endpoint retries transport)
           = [Log ERROR (''Error sending '' @ endpoint @ '': '' @ e)]"
proof -
  have r: "retried (transport (BASE_URL @ ''/led/'' @ endpoint) a)" if "0 \<le> a" "a < k" for a
    using assms(3) that by simp
  show ?thesis
    unfolding send_def
    using send_loop_other [where transport = transport and endpoint = endpoint and e = e,
            OF assms(2) assms(4)]
      send_loop_retried_then_other [where transport = transport and endpoint = endpoint
            and e = e, OF assms(1) assms(2) r assms(4)]
    by simp
qed

theorem send_aborts_on_other_exception_witness:
  "timeout_then_error ''http://192.168.4.1/led/thumb/on'' 0 = Raises_Timeout \<and>
   timeout_then_error ''http://192.168.4.1/led/thumb/on'' 1 = Raises_Other ''boom'' \<and>
   attempts (send ''thumb/on'' 3 timeout_then_error) = 2 \<and>
   last (send ''thumb/on'' 3 timeout_then_error) = Log ERROR ''Error sending thumb/on: boom''"
proof -
  have "\<forall>a. 0 \<le> a \<and> a < 1 \<longrightarrow>
          retried (timeout_then_error (BASE_URL @ ''/led/'' @ ''thumb/on'') a)"
    by (auto simp: timeout_then_error_def)
  from send_aborts_on_other_exception
         [of 1 3 timeout_then_error "''thumb/on''" "''boom''", OF _ _ this]
  show ?thesis
    by (simp add: timeout_then_error_def)
qed

text \<open>
  C6 as stated fails for a response whose status is not 200: answered with status 500
  on every attempt, the routine makes both attempts and logs nothing.
\<close>

theorem send_retries_on_bad_status:
  "send ''thumb/on'' MAX_RETRIES always_500 =
     [Http_get ''http://192.168.4.1/led/thumb/on'' 1, Sleep 0.1,
      Http_get ''http://192.168.4.1/led/thumb/on'' 1, Sleep 0.1] \<and>
   attempts (send ''thumb/on'' MAX_RETRIES always_500) = 2 \<and>
   filter is_error_log (send ''thumb/on'' MAX_RETRIES always_500) = []"
proof -
  have r: "always_500 url a = Response 500 ''Internal Server Error''" for url a
    by (simp add: always_500_def)
  have "send ''thumb/on'' MAX_RETRIES always_500 =
     [Http_get ''http://192.168.4.1/led/thumb/on'' 1, Sleep 0.1,
      Http_get ''http://192.168.4.1/led/thumb/on'' 1, Sleep 0.1]"
    unfolding send_def MAX_RETRIES_def
    by (simp add: send_loop_not_ok [where transport = always_500, OF _ r] send_loop_done
          BASE_URL_def ESP32_IP_def REQUEST_TIMEOUT_def)
  then show ?thesis
    by (simp add: attempts_def)
qed

subsection \<open>The connection health monitor\<close>

lemma check_cached:
  "current_time - last_connection_check st < CONNECTION_CHECK_INTERVAL \<Longrightarrow>
   check_esp32_connection current_time transport st = (esp32_connected st, st, [])"
  by (simp add: check_esp32_connection_def)

lemma check_probe:
  "\<not> current_time - last_connection_check st < CONNECTION_CHECK_INTERVAL \<Longrightarrow>
   check_esp32_connection current_time transport st =
     (case transport (BASE_URL @ ''/status'') of
        Response status_code body \<Rightarrow>
          (status_code = 200,
           st\<lparr>last_connection_check := current_time, esp32_connected := (status_code = 200)\<rparr>,
           Http_get (BASE_URL @ ''/status'') 1.0 #
           (if status_code = 200 then [Log INFO ''ESP32 connection established''] else []))
      | _ \<Rightarrow>
          (False,
           st\<lparr>last_connection_check := current_time, esp32_connected := False\<rparr>,
           Http_get (BASE_URL @ ''/status'') 1.0 #
           (if esp32_connected st then [Log WARNING ''ESP32 connection lost''] else [])))"
  by (simp add: check_esp32_connection_def Let_def split: http_outcome.splits)

text \<open>
  C7. A call made less than \<open>CONNECTION_CHECK_INTERVAL\<close> after the time of the last
  probe makes no request, returns the cached flag and leaves the state unchanged; a
  call that makes a request is one for which at least the interval has elapsed since
  the last probe; and after a call at \<open>t1\<close> that probes (one request), a call at
  \<open>t2\<close> with \<open>t2 - t1\<close> below the interval makes no request and returns the flag the
  first call returned, whatever the transport would answer.
\<close>

theorem check_rate_limited:
  "(current_time - last_connection_check st < CONNECTION_CHECK_INTERVAL \<longrightarrow>
      check_esp32_connection current_time transport st = (esp32_connected st, st, [])) \<and>
   (attempts (snd (snd (check_esp32_connection current_time transport st))) \<noteq> 0 \<longrightarrow>
      CONNECTION_CHECK_INTERVAL \<le> current_time - last_connection_check st) \<and>
   (\<not> t1 - last_connection_check st < CONNECTION_CHECK_INTERVAL \<and>
    t2 - t1 < CONNECTION_CHECK_INTERVAL \<longrightarrow>
      attempts (snd (snd (check_esp32_connection t1 transport1 st))) = 1 \<and>
      check_esp32_connection t2 transport2
          (fst (snd (check_esp32_connection t1 transport1 st))) =
        (fst (check_esp32_connection t1 transport1 st),
         fst (snd (check_esp32_connection t1 transport1 st)), []))"
proof -
  have 1: "check_esp32_connection current_time transport st = (esp32_connected st, st, [])"
    if "current_time - last_connection_check st < CONNECTION_CHECK_INTERVAL"
    using that by (rule check_cached)
  have 2: "CONNECTION_CHECK_INTERVAL \<le> current_time - last_connection_check st"
    if "attempts (snd (snd (check_esp32_connection current_time transport st))) \<noteq> 0"
  proof (rule ccontr)
    assume "\<not> CONNECTION_CHECK_INTERVAL \<le> current_time - last_connection_check st"
    then have "current_time - last_connection_check st < CONNECTION_CHECK_INTERVAL" by simp
    then show False using that by (simp add: check_cached attempts_def)
  qed
  have 3: "attempts (snd (snd (check_esp32_connection t1 transport1 st))) = 1 \<and>
      check_esp32_connection t2 transport2
          (fst (snd (check_esp32_connection t1 transport1 st))) =
        (fst (check_esp32_connection t1 transport1 st),
         fst (snd (check_esp32_connection t1 transport1 st)), [])"
    if p: "\<not> t1 - last_connection_check st < CONNECTION_CHECK_INTERVAL"
      and c: "t2 - t1 < CONNECTION_CHECK_INTERVAL"
  proof -
    let ?st1 = "fst (snd (check_esp32_connection t1 transport1 st))"
    have l: "last_connection_check ?st1 = t1"
      and r: "fst (check_esp32_connection t1 transport1 st) = esp32_connected ?st1"
      and a: "attempts (snd (snd (check_esp32_connection t1 transport1 st))) = 1"
      by (simp_all add: check_probe [OF p] attempts_def split: http_outcome.splits)
    have "t2 - last_connection_check ?st1 < CONNECTION_CHECK_INTERVAL"
      using c by (simp add: l)
    from check_cached [OF this] show ?thesis
      using a by (simp add: r)
  qed
  show ?thesis using 1 2 3 by blast
qed

theorem check_rate_limited_witness:
  "check_esp32_connection 10 ok_transport initial_state =
     (True, initial_state\<lparr>last_connection_check := 10, esp32_connected := True\<rparr>,
      [Http_get ''http://192.168.4.1/status'' 1, Log INFO ''ESP32 connection established'']) \<and>
   check_esp32_connection 12 refused_transport
       (initial_state\<lparr>last_connection_check := 10, esp32_connected := True\<rparr>) =
     (True, initial_state\<lparr>last_connection_check := 10, esp32_connected := True\<rparr>, [])"
  using check_rate_limited [where current_time = 12
          and st = "initial_state" and transport = refused_transport
          and ?t1.0 = 10 and ?t2.0 = 12 and ?transport1.0 = ok_transport
          and ?transport2.0 = refused_transport]
  by (simp add: check_probe check_cached CONNECTION_CHECK_INTERVAL_def initial_state_def
        ok_transport_def BASE_URL_def ESP32_IP_def)

text \<open>
  C8. The code does not log by transition. A probe answered with status 200 while the
  flag is already true leaves the flag unchanged and logs \<open>established\<close> (lines 64-66
  test the flag after assigning it), and a probe answered with status 500 while the
  flag is true drops the flag without logging \<open>lost\<close>. The \<open>except\<close> branch (lines
  69-71) tests the flag before assigning it and so logs \<open>lost\<close> on the transition
  only.
\<close>

theorem established_logged_without_transition:
  "esp32_connected connected_state \<and>
   esp32_connected (fst (snd (check_esp32_connection 10 ok_transport connected_state))) \<and>
   snd (snd (check_esp32_connection 10 ok_transport connected_state)) =
     [Http_get ''http://192.168.4.1/status'' 1, Log INFO ''ESP32 connection established''] \<and>
   \<not> esp32_connected
       (fst (snd (check_esp32_connection 10 bad_status_transport connected_state))) \<and>
   snd (snd (check_esp32_connection 10 bad_status_transport connected_state)) =
     [Http_get ''http://192.168.4.1/status'' 1]"
  by (simp add: check_probe CONNECTION_CHECK_INTERVAL_def connected_state_def initial_state_def
        ok_transport_def bad_status_transport_def BASE_URL_def ESP32_IP_def)

subsection \<open>The classifier\<close>

text \<open>
  C9. For every landmark set: the hand is taken as a right hand exactly when the thumb
  tip's x is below the thumb MCP's x; the thumb is up exactly when tip x is below IP x
  for a right hand and exactly when tip x is above IP x otherwise; each of the other
  four fingers is up exactly when its tip's y is below its PIP's y minus 0.02. The
  classifier is a function of the landmark set alone (it reads no state and has no
  events), and its result depends only on the eleven landmarks these rules mention.
\<close>

theorem detect_finger_states_rules:
  "(hand_is_right hl \<longleftrightarrow> lm_x (hl THUMB_TIP) < lm_x (hl THUMB_MCP)) \<and>
   (hand_is_right hl \<longrightarrow>
      (detect_finger_states hl Thumb \<longleftrightarrow> lm_x (hl THUMB_TIP) < lm_x (hl THUMB_IP))) \<and>
   (\<not> hand_is_right hl \<longrightarrow>
      (detect_finger_states hl Thumb \<longleftrightarrow> lm_x (hl THUMB_TIP) > lm_x (hl THUMB_IP))) \<and>
   (detect_finger_states hl Index \<longleftrightarrow>
      lm_y (hl INDEX_FINGER_TIP) < lm_y (hl INDEX_FINGER_PIP) - 0.02) \<and>
   (detect_finger_states hl Middle \<longleftrightarrow>
      lm_y (hl MIDDLE_FINGER_TIP) < lm_y (hl MIDDLE_FINGER_PIP) - 0.02) \<and>
   (detect_finger_states hl Ring \<longleftrightarrow>
      lm_y (hl RING_FINGER_TIP) < lm_y (hl RING_FINGER_PIP) - 0.02) \<and>
   (detect_finger_states hl Pinky \<longleftrightarrow>
      lm_y (hl PINKY_TIP) < lm_y (hl PINKY_PIP) - 0.02) \<and>
   ((\<forall>l \<in> {THUMB_TIP, THUMB_IP, THUMB_MCP, INDEX_FINGER_TIP, INDEX_FINGER_PIP,
             MIDDLE_FINGER_TIP, MIDDLE_FINGER_PIP, RING_FINGER_TIP, RING_FINGER_PIP,
             PINKY_TIP, PINKY_PIP}. hl l = hl' l) \<longrightarrow>
      detect_finger_states hl = detect_finger_states hl')"
proof -
  have "detect_finger_states hl f = detect_finger_states hl' f"
    if "\<forall>l \<in> {THUMB_TIP, THUMB_IP, THUMB_MCP, INDEX_FINGER_TIP, INDEX_FINGER_PIP,
             MIDDLE_FINGER_TIP, MIDDLE_FINGER_PIP, RING_FINGER_TIP, RING_FINGER_PIP,
             PINKY_TIP, PINKY_PIP}. hl l = hl' l" for f
    using that by (cases f) (simp_all add: thumb_up_def hand_is_right_def)
  then have "(\<forall>l \<in> {THUMB_TIP, THUMB_IP, THUMB_MCP, INDEX_FINGER_TIP, INDEX_FINGER_PIP,
             MIDDLE_FINGER_TIP, MIDDLE_FINGER_PIP, RING_FINGER_TIP, RING_FINGER_PIP,
             PINKY_TIP, PINKY_PIP}. hl l = hl' l) \<longrightarrow>
      detect_finger_states hl = detect_finger_states hl'"
    by blast
  then show ?thesis
    by (simp add: thumb_up_def hand_is_right_def margin_def)
qed

theorem detect_finger_states_rules_witness:
  "hand_is_right right_hand \<and> detect_finger_states right_hand Thumb \<and>
   \<not> hand_is_right thumb_index_hand \<and> detect_finger_states thumb_index_hand Thumb \<and>
   detect_finger_states thumb_index_hand Index \<and>
   \<not> detect_finger_states thumb_index_hand Middle \<and>
   detect_finger_states index_hand = detect_finger_states (index_hand(WRIST := \<lparr>lm_x = 0, lm_y = 0\<rparr>))"
  using detect_finger_states_rules [of right_hand right_hand]
    detect_finger_states_rules [of thumb_index_hand thumb_index_hand]
    detect_finger_states_rules [of index_hand "index_hand(WRIST := \<lparr>lm_x = 0, lm_y = 0\<rparr>)"]
  by (simp add: right_hand_def thumb_index_hand_def index_hand_def closed_hand_def)

end
